theory Spec2Isabelle
  imports Main "HOL-Library.Signed_Division"
begin

section \<open>Status and tasks\<close>

text \<open>
  The Go type \<^verbatim>\<open>status\<close> is \<^verbatim>\<open>int\<close>, with the three constants
  \<^verbatim>\<open>todo = 0\<close>, \<^verbatim>\<open>inProgress = 1\<close>, \<^verbatim>\<open>done = 2\<close> given by \<^verbatim>\<open>iota\<close>.
  It is kept as an integer here, so that "the focus is a valid status" is a property to be
  proved and not a consequence of the type. The only arithmetic the program performs on a
  status is adding or subtracting one, on values between 0 and 2 in every statement
  below, far from the bounds of a machine integer. The constant \<^verbatim>\<open>done\<close> is written
  \<open>done_s\<close>.
\<close>

type_synonym status = int

definition todo :: status where
  "todo = 0"

definition inProgress :: status where
  "inProgress = 1"

definition done_s :: status where
  "done_s = 2"

definition valid_status :: "status \<Rightarrow> bool" where
  "valid_status s = (s = todo \<or> s = inProgress \<or> s = done_s)"

record Task =
  status :: status
  title :: string
  description :: string

definition NewTask :: "status \<Rightarrow> string \<Rightarrow> string \<Rightarrow> Task" where
  "NewTask s t d = \<lparr>status = s, title = t, description = d\<rparr>"

text \<open>\<^verbatim>\<open>func (t *Task) Next()\<close>: the receiver is updated in place; the model returns it.\<close>

definition Task_Next :: "Task \<Rightarrow> Task" where
  "Task_Next t = (if status t = done_s then t\<lparr>status := todo\<rparr> else t\<lparr>status := status t + 1\<rparr>)"

section \<open>Columns\<close>

text \<open>
  A column is a \<^verbatim>\<open>list.Model\<close> of the external list component, whose code is not part
  of the repository. The record keeps the state that the program reads and writes
  through the methods it calls: the items, the cursor within the current page, the
  page and the number of items per page of the paginator, and what \<^verbatim>\<open>initLists\<close> sets
  (title, size, help flag). The paginator's number of pages is computed where it is
  used. All items of this program are tasks.
\<close>

record list_model =
  items :: "Task list"
  cursor :: nat
  page :: nat
  perPage :: nat
  Title :: string
  width :: int
  height :: int
  showHelp :: bool

text \<open>\<^verbatim>\<open>Items\<close> returns the items of the column.\<close>

definition Items :: "list_model \<Rightarrow> Task list" where
  "Items l = items l"

text \<open>
  \<^verbatim>\<open>Index\<close> returns the index of the selected item: the page times the items per page
  plus the cursor. It is a number also when the column is empty.
\<close>

definition Index :: "list_model \<Rightarrow> nat" where
  "Index l = page l * perPage l + cursor l"

text \<open>
  \<^verbatim>\<open>SelectedItem\<close> returns the item at the index, or nil when the column is empty or the
  index is not a position of the column.
\<close>

definition SelectedItem :: "list_model \<Rightarrow> Task option" where
  "SelectedItem l =
     (if length (items l) = 0 \<or> length (items l) \<le> Index l then None
      else Some (items l ! Index l))"

text \<open>
  The height left for the items: the height of the column without the title bar (two
  lines), the status bar (two lines), the pagination line and, when it is shown, the help
  panel (two lines), with the default styles of the list component.
\<close>

definition availHeight :: "list_model \<Rightarrow> int" where
  "availHeight l = height l - 2 - 2 - 1 - (if showHelp l then 2 else 0)"

text \<open>
  The paginator's number of pages for a number of items and a number of items per
  page: the quotient, rounded up.
\<close>

definition SetTotalPages :: "nat \<Rightarrow> nat \<Rightarrow> nat" where
  "SetTotalPages n pp = n div pp + (if 0 < n mod pp then 1 else 0)"

text \<open>
  \<^verbatim>\<open>updatePagination\<close>, which the list component runs after every change of its items
  or of its layout. The items per page are the available height divided by the three
  lines of an item of the default delegate, at least one. The index is kept: the page
  and the cursor are computed from it again, and the page is then bounded by the last
  page. The index itself is not bounded by the number of items.
\<close>

definition updatePagination :: "list_model \<Rightarrow> list_model" where
  "updatePagination l =
     (let index = Index l;
          pp = nat (max 1 (availHeight l sdiv 3));
          totalPages = (if length (items l) < 1 then SetTotalPages 1 pp
                        else SetTotalPages (length (items l)) pp);
          pg = index div pp
      in l\<lparr>perPage := pp,
            page := (if totalPages - 1 \<le> pg then max 0 (totalPages - 1) else pg),
            cursor := index mod pp\<rparr>)"

text \<open>
  \<^verbatim>\<open>list.New\<close> makes a column of the given items and size: the title is \<^verbatim>\<open>List\<close>, the help
  panel is shown, the cursor is on the first item of the first page. The title and the
  help flag are overwritten by \<^verbatim>\<open>initLists\<close> right after the call.
\<close>

definition list_New :: "Task list \<Rightarrow> int \<Rightarrow> int \<Rightarrow> list_model" where
  "list_New its w h =
     updatePagination
       \<lparr>items = its, cursor = 0, page = 0, perPage = 1,
        Title = ''List'', width = w, height = h, showHelp = True\<rparr>"

text \<open>\<^verbatim>\<open>SetShowHelp\<close> sets the help flag and updates the pagination.\<close>

definition SetShowHelp :: "bool \<Rightarrow> list_model \<Rightarrow> list_model" where
  "SetShowHelp b l = updatePagination (l\<lparr>showHelp := b\<rparr>)"

text \<open>
  \<^verbatim>\<open>RemoveItem\<close> removes the item at the given index, if the index is a position of the
  column, and updates the pagination. It does not move the index.
\<close>

definition RemoveItem :: "nat \<Rightarrow> list_model \<Rightarrow> list_model" where
  "RemoveItem i l =
     updatePagination
       (l\<lparr>items := (if length (items l) \<le> i then items l
                     else take i (items l) @ drop (Suc i) (items l))\<rparr>)"

text \<open>
  \<^verbatim>\<open>InsertItem\<close> inserts an item at the given position, or at the end when the position
  is past the end, and updates the pagination.
\<close>

definition InsertItem :: "nat \<Rightarrow> Task \<Rightarrow> list_model \<Rightarrow> list_model" where
  "InsertItem n t l =
     updatePagination (l\<lparr>items := take n (items l) @ [t] @ drop n (items l)\<rparr>)"

section \<open>The board\<close>

record Model =
  loaded :: bool
  focused :: status
  lists :: "list_model list"
  quitting :: bool

text \<open>\<^verbatim>\<open>New\<close> returns the zero value: not loaded, focus \<open>0\<close>, a nil slice of columns.\<close>

definition New :: Model where
  "New = \<lparr>loaded = False, focused = 0, lists = [], quitting = False\<rparr>"

text \<open>
  Indexing a slice panics in Go when the index is out of range. A panic is the value
  \<open>None\<close> of the operations below.
\<close>

definition at :: "'a list \<Rightarrow> int \<Rightarrow> 'a option" where
  "at xs i = (if 0 \<le> i \<and> i < int (length xs) then Some (xs ! nat i) else None)"

text \<open>
  \<^verbatim>\<open>func (m *Model) MoveToNext() tea.Msg\<close>. The receiver is a pointer: the model takes the
  board and returns the board after the call. The returned message is always nil and is
  left out. The statements follow the source:
  \<^item> \<open>cur\<close> is \<^verbatim>\<open>m.lists[m.focused]\<close>, and the operation returns at once when it has no
    selected item;
  \<^item> \<^verbatim>\<open>m.lists[m.focused].RemoveItem(...)\<close> works on the element of the slice, in place;
  \<^item> \<^verbatim>\<open>targetList := m.lists[selectedTask.status]\<close> copies the column into a local variable
    (columns are struct values), \<^verbatim>\<open>targetList.InsertItem(...)\<close> changes that local
    variable only, and the local variable is never stored back into \<^verbatim>\<open>m.lists\<close>;
  \<^item> \<^verbatim>\<open>m.focused = selectedTask.status\<close>.
\<close>

definition MoveToNext :: "Model \<Rightarrow> Model option" where
  "MoveToNext m =
     (case at (lists m) (focused m) of
        None \<Rightarrow> None
      | Some cur \<Rightarrow>
         (case SelectedItem cur of
            None \<Rightarrow> Some m
          | Some selectedItem \<Rightarrow>
             (let m1 = m\<lparr>lists := (lists m)[nat (focused m) := RemoveItem (Index cur) cur]\<rparr>;
                  selectedTask = Task_Next selectedItem
              in case at (lists m1) (status selectedTask) of
                   None \<Rightarrow> None
                 | Some targetList \<Rightarrow>
                    (let targetList' =
                           InsertItem (length (Items targetList)) selectedTask targetList
                     in Some (m1\<lparr>focused := status selectedTask\<rparr>)))))"

text \<open>\<^verbatim>\<open>func (m *Model) DeleteTask() tea.Msg\<close>, with the same conventions.\<close>

definition DeleteTask :: "Model \<Rightarrow> Model option" where
  "DeleteTask m =
     (case at (lists m) (focused m) of
        None \<Rightarrow> None
      | Some cur \<Rightarrow>
         (case SelectedItem cur of
            None \<Rightarrow> Some m
          | Some selectedItem \<Rightarrow>
              Some (m\<lparr>lists := (lists m)[nat (focused m) := RemoveItem (Index cur) cur]\<rparr>)))"

text \<open>\<^verbatim>\<open>func (m *Model) Next()\<close> and \<^verbatim>\<open>func (m *Model) Prev()\<close>.\<close>

definition Model_Next :: "Model \<Rightarrow> Model" where
  "Model_Next m = (if focused m = done_s then m\<lparr>focused := todo\<rparr> else m\<lparr>focused := focused m + 1\<rparr>)"

definition Model_Prev :: "Model \<Rightarrow> Model" where
  "Model_Prev m = (if focused m = todo then m\<lparr>focused := done_s\<rparr> else m\<lparr>focused := focused m - 1\<rparr>)"

text \<open>
  \<^verbatim>\<open>initLists\<close>: three empty columns of a quarter of the width and half of the height
  (Go's integer division truncates toward zero), without help panel, with their titles.
\<close>

definition divisor :: int where
  "divisor = 4"

definition initLists :: "int \<Rightarrow> int \<Rightarrow> Model \<Rightarrow> Model" where
  "initLists w h m =
     (let listWidth = w sdiv divisor;
          listHeight = h sdiv 2;
          ls = map (SetShowHelp False)
                 [list_New [] listWidth listHeight,
                  list_New [] listWidth listHeight,
                  list_New [] listWidth listHeight];
          ls1 = ls[nat todo := (ls ! nat todo)\<lparr>Title := ''To Do''\<rparr>];
          ls2 = ls1[nat inProgress := (ls1 ! nat inProgress)\<lparr>Title := ''In Progress''\<rparr>];
          ls3 = ls2[nat done_s := (ls2 ! nat done_s)\<lparr>Title := ''Done''\<rparr>]
      in m\<lparr>lists := ls3\<rparr>)"

section \<open>Messages and commands\<close>

text \<open>
  The messages the program distinguishes: nil, a window size, a key (given by the string
  \<^verbatim>\<open>msg.String()\<close> that \<^verbatim>\<open>Update\<close> switches on) and a \<^verbatim>\<open>Task\<close>, which the form's
  \<^verbatim>\<open>CreateTask\<close> command returns. \<open>LibMsg\<close> stands for the messages of the external
  components (cursor blinking and the like).
\<close>

datatype msg = NilMsg | WindowSizeMsg int int | KeyMsg string | TaskMsg Task | LibMsg nat

section \<open>The form\<close>

text \<open>
  Modelled from the spec: the single-line title field \<^verbatim>\<open>textinput.Model\<close> of the external
  text-input component, a text with its own focus flag (section 3).
\<close>

record textinput =
  ti_value :: string
  ti_focus :: bool

text \<open>
  Modelled from the spec: the multi-line description field \<^verbatim>\<open>textarea.Model\<close> of the
  external text-input component, a text with its own focus flag (section 3).
\<close>

record textarea =
  ta_value :: string
  ta_focus :: bool

text \<open>Modelled from the spec: \<^verbatim>\<open>textinput.New\<close>, an empty field without focus.\<close>

definition textinput_New :: textinput where
  "textinput_New = \<lparr>ti_value = [], ti_focus = False\<rparr>"

text \<open>Modelled from the spec: \<^verbatim>\<open>Focus\<close>, \<^verbatim>\<open>Blur\<close>, \<^verbatim>\<open>Focused\<close> and \<^verbatim>\<open>Value\<close> of the title field.\<close>

definition textinput_Focus :: "textinput \<Rightarrow> textinput" where
  "textinput_Focus t = t\<lparr>ti_focus := True\<rparr>"

definition textinput_Blur :: "textinput \<Rightarrow> textinput" where
  "textinput_Blur t = t\<lparr>ti_focus := False\<rparr>"

definition textinput_Focused :: "textinput \<Rightarrow> bool" where
  "textinput_Focused t = ti_focus t"

definition textinput_Value :: "textinput \<Rightarrow> string" where
  "textinput_Value t = ti_value t"

text \<open>
  Modelled from the spec: \<^verbatim>\<open>textarea.New\<close>, an empty field without focus (the form is
  title-first, section 3), and \<^verbatim>\<open>Focus\<close> and \<^verbatim>\<open>Value\<close> of the description field.
\<close>

definition textarea_New :: textarea where
  "textarea_New = \<lparr>ta_value = [], ta_focus = False\<rparr>"

definition textarea_Focus :: "textarea \<Rightarrow> textarea" where
  "textarea_Focus t = t\<lparr>ta_focus := True\<rparr>"

definition textarea_Value :: "textarea \<Rightarrow> string" where
  "textarea_Value t = ta_value t"

record Form =
  focused :: status
  title :: textinput
  description :: textarea

definition NewForm :: "status \<Rightarrow> Form" where
  "NewForm s =
     \<lparr>Form.focused = s, title = textinput_Focus textinput_New, description = textarea_New\<rparr>"

definition CreateTask :: "Form \<Rightarrow> Task" where
  "CreateTask m =
     NewTask (Form.focused m) (textinput_Value (Form.title m)) (textarea_Value (Form.description m))"

section \<open>The two modes\<close>

text \<open>
  The global \<^verbatim>\<open>models\<close> is a slice of exactly two slots, created in \<^verbatim>\<open>main\<close> and indexed
  only by the constants \<^verbatim>\<open>model = 0\<close> and \<^verbatim>\<open>form = 1\<close>. Every value the program stores
  in slot \<^verbatim>\<open>model\<close> is a board and every value it stores in slot \<^verbatim>\<open>form\<close> is a form, so
  the registry is a record of the two slots.
\<close>

record registry =
  model :: Model
  form :: Form

text \<open>A \<^verbatim>\<open>tea.Model\<close> of this program is a board or a form.\<close>

datatype tea_model = BoardM Model | FormM Form

text \<open>
  A \<^verbatim>\<open>tea.Cmd\<close> is a function to be run by the runtime. The method values
  \<^verbatim>\<open>m.MoveToNext\<close> and \<^verbatim>\<open>m.DeleteTask\<close> are bound to the variable \<open>m\<close> of the call of
  \<^verbatim>\<open>Update\<close> that returns them (the methods have pointer receivers), and \<^verbatim>\<open>m.CreateTask\<close>
  to a copy of the form; the constructors carry the value of that receiver. \<open>LibCmd\<close>
  stands for the commands returned by the external components.
\<close>

datatype cmd = NoCmd | Quit | Blink | LibCmd
  | MoveToNextCmd Model | DeleteTaskCmd Model | CreateTaskCmd Form

text \<open>
  \<^verbatim>\<open>func (m Form) Update(msg tea.Msg) (tea.Model, tea.Cmd)\<close>. The \<^verbatim>\<open>Update\<close> functions of
  the two text fields belong to the external component and are the parameters \<open>tiU\<close> and
  \<open>taU\<close>. The result is the returned model, the returned command and the registry after
  the call.
\<close>

definition Form_Update ::
  "(msg \<Rightarrow> textinput \<Rightarrow> textinput) \<Rightarrow> (msg \<Rightarrow> textarea \<Rightarrow> textarea) \<Rightarrow>
   msg \<Rightarrow> Form \<Rightarrow> registry \<Rightarrow> tea_model \<times> cmd \<times> registry" where
  "Form_Update tiU taU ms m models =
     (if ms = KeyMsg ''ctrl+c'' then (FormM m, Quit, models)
      else if ms = KeyMsg ''enter'' then
        (if textinput_Focused (Form.title m)
         then (FormM (m\<lparr>Form.title := textinput_Blur (Form.title m),
                         Form.description := textarea_Focus (Form.description m)\<rparr>),
               Blink, models)
         else (let models1 = models\<lparr>form := m\<rparr>
               in (BoardM (model models1), CreateTaskCmd m, models1)))
      else if textinput_Focused (Form.title m)
        then (FormM (m\<lparr>Form.title := tiU ms (Form.title m)\<rparr>), LibCmd, models)
        else (FormM (m\<lparr>Form.description := taU ms (Form.description m)\<rparr>), LibCmd, models))"

text \<open>
  The last two lines of \<^verbatim>\<open>Model.Update\<close>: the message is handed to the focused column's
  own \<^verbatim>\<open>Update\<close>, which belongs to the external list component and is the parameter
  \<open>lU\<close>, and the column it returns is stored back.
\<close>

definition update_focused ::
  "(msg \<Rightarrow> list_model \<Rightarrow> list_model) \<Rightarrow> msg \<Rightarrow> Model \<Rightarrow> registry \<Rightarrow>
   (tea_model \<times> cmd \<times> registry) option" where
  "update_focused lU ms m models =
     (case at (lists m) (Model.focused m) of
        None \<Rightarrow> None
      | Some l \<Rightarrow>
          Some (BoardM (m\<lparr>lists := (lists m)[nat (Model.focused m) := lU ms l]\<rparr>),
                LibCmd, models))"

text \<open>
  \<^verbatim>\<open>func (m Model) Update(msg tea.Msg) (tea.Model, tea.Cmd)\<close>. The receiver is a copy of
  the board. The widths and heights written to the two global styles only matter for
  rendering and are left out. In the case \<^verbatim>\<open>"n"\<close> the slot \<^verbatim>\<open>models[form]\<close> has just been
  set to the new form, so \<^verbatim>\<open>models[form].Update(nil)\<close> is the form's \<^verbatim>\<open>Update\<close>.
\<close>

definition Model_Update ::
  "(msg \<Rightarrow> list_model \<Rightarrow> list_model) \<Rightarrow>
   (msg \<Rightarrow> textinput \<Rightarrow> textinput) \<Rightarrow> (msg \<Rightarrow> textarea \<Rightarrow> textarea) \<Rightarrow>
   msg \<Rightarrow> Model \<Rightarrow> registry \<Rightarrow> (tea_model \<times> cmd \<times> registry) option" where
  "Model_Update lU tiU taU ms m models =
     (case ms of
        WindowSizeMsg w h \<Rightarrow>
          update_focused lU ms
            (if \<not> loaded m then (initLists w h m)\<lparr>loaded := True\<rparr> else m) models
      | KeyMsg k \<Rightarrow>
          if k = ''ctrl+c'' then Some (BoardM (m\<lparr>quitting := True\<rparr>), Quit, models)
          else if k = ''left'' \<or> k = ''h'' then update_focused lU ms (Model_Prev m) models
          else if k = ''right'' \<or> k = ''l'' then update_focused lU ms (Model_Next m) models
          else if k = ''enter'' then Some (BoardM m, MoveToNextCmd m, models)
          else if k = ''d'' then Some (BoardM m, DeleteTaskCmd m, models)
          else if k = ''n'' then
            (let models1 = models\<lparr>model := m\<rparr>;
                 models2 = models1\<lparr>form := NewForm (Model.focused m)\<rparr>
             in Some (Form_Update tiU taU NilMsg (form models2) models2))
          else update_focused lU ms m models
      | _ \<Rightarrow> update_focused lU ms m models)"

section \<open>The running program\<close>

text \<open>
  The runtime holds the current model, hands every message to its \<^verbatim>\<open>Update\<close> and runs
  the returned command. One message is processed completely, its command included,
  before the next one (section 5 of the specification). \<open>ended\<close> is set once the
  command \<^verbatim>\<open>tea.Quit\<close> was returned.
\<close>

record prog =
  current :: tea_model
  models :: registry
  ended :: bool

text \<open>\<^verbatim>\<open>main\<close> fills the registry and starts the runtime on \<^verbatim>\<open>models[model]\<close>.\<close>

definition main :: prog where
  "main = \<lparr>current = BoardM New, models = \<lparr>model = New, form = NewForm todo\<rparr>, ended = False\<rparr>"

definition tea_Update ::
  "(msg \<Rightarrow> list_model \<Rightarrow> list_model) \<Rightarrow>
   (msg \<Rightarrow> textinput \<Rightarrow> textinput) \<Rightarrow> (msg \<Rightarrow> textarea \<Rightarrow> textarea) \<Rightarrow>
   msg \<Rightarrow> tea_model \<Rightarrow> registry \<Rightarrow> (tea_model \<times> cmd \<times> registry) option" where
  "tea_Update lU tiU taU ms c r =
     (case c of
        BoardM m \<Rightarrow> Model_Update lU tiU taU ms m r
      | FormM f \<Rightarrow> Some (Form_Update tiU taU ms f r))"

text \<open>
  \<^verbatim>\<open>Model.Update\<close> has a value receiver, so \<^verbatim>\<open>return m, m.MoveToNext\<close> returns a copy of
  the variable \<open>m\<close> as the new current model and a command bound to the variable itself.
  The two share the array behind the slice \<^verbatim>\<open>m.lists\<close>: what the command does to the
  columns is seen by the current model, what it assigns to the other fields of its
  receiver is not.
\<close>

definition share :: "list_model list \<Rightarrow> tea_model \<Rightarrow> tea_model" where
  "share ls c = (case c of BoardM m \<Rightarrow> BoardM (m\<lparr>lists := ls\<rparr>) | FormM f \<Rightarrow> FormM f)"

text \<open>
  Running the command that \<^verbatim>\<open>Update\<close> returned together with the model \<open>c\<close> and the
  registry \<open>r\<close>. The \<^verbatim>\<open>Task\<close> that \<^verbatim>\<open>CreateTask\<close> returns is a message and is handed
  to \<^verbatim>\<open>Update\<close> of the then current model; the other commands return nil or belong to
  the external components. A panic ends the program: \<open>None\<close>.
\<close>

definition run_cmd ::
  "(msg \<Rightarrow> list_model \<Rightarrow> list_model) \<Rightarrow>
   (msg \<Rightarrow> textinput \<Rightarrow> textinput) \<Rightarrow> (msg \<Rightarrow> textarea \<Rightarrow> textarea) \<Rightarrow>
   cmd \<Rightarrow> tea_model \<Rightarrow> registry \<Rightarrow> prog option" where
  "run_cmd lU tiU taU cm c r =
     (case cm of
        Quit \<Rightarrow> Some \<lparr>current = c, models = r, ended = True\<rparr>
      | MoveToNextCmd b \<Rightarrow>
         (case MoveToNext b of
            None \<Rightarrow> None
          | Some b' \<Rightarrow> Some \<lparr>current = share (lists b') c, models = r, ended = False\<rparr>)
      | DeleteTaskCmd b \<Rightarrow>
         (case DeleteTask b of
            None \<Rightarrow> None
          | Some b' \<Rightarrow> Some \<lparr>current = share (lists b') c, models = r, ended = False\<rparr>)
      | CreateTaskCmd f \<Rightarrow>
         (case tea_Update lU tiU taU (TaskMsg (CreateTask f)) c r of
            None \<Rightarrow> None
          | Some (c', cm', r') \<Rightarrow> Some \<lparr>current = c', models = r', ended = False\<rparr>)
      | _ \<Rightarrow> Some \<lparr>current = c, models = r, ended = False\<rparr>)"

text \<open>One message: \<^verbatim>\<open>Update\<close> of the current model, then the command.\<close>

definition step ::
  "(msg \<Rightarrow> list_model \<Rightarrow> list_model) \<Rightarrow>
   (msg \<Rightarrow> textinput \<Rightarrow> textinput) \<Rightarrow> (msg \<Rightarrow> textarea \<Rightarrow> textarea) \<Rightarrow>
   msg \<Rightarrow> prog \<Rightarrow> prog option" where
  "step lU tiU taU ms p =
     (if ended p then Some p
      else case tea_Update lU tiU taU ms (current p) (models p) of
        None \<Rightarrow> None
      | Some (c, cm, r) \<Rightarrow> run_cmd lU tiU taU cm c r)"

text \<open>A sequence of messages, one after the other.\<close>

fun exec ::
  "(msg \<Rightarrow> list_model \<Rightarrow> list_model) \<Rightarrow>
   (msg \<Rightarrow> textinput \<Rightarrow> textinput) \<Rightarrow> (msg \<Rightarrow> textarea \<Rightarrow> textarea) \<Rightarrow>
   msg list \<Rightarrow> prog \<Rightarrow> prog option" where
  "exec lU tiU taU [] p = Some p"
| "exec lU tiU taU (ms # mss) p =
     (case step lU tiU taU ms p of
        None \<Rightarrow> None
      | Some p' \<Rightarrow> exec lU tiU taU mss p')"

text \<open>
  The board of a program state: the current model, or the board saved in slot
  \<^verbatim>\<open>models[model]\<close> while the form is the current model.
\<close>

definition board :: "prog \<Rightarrow> Model" where
  "board p = (case current p of BoardM m \<Rightarrow> m | FormM f \<Rightarrow> model (models p))"

section \<open>Properties of states\<close>


text \<open>Exactly one of the two fields of a form has the focus.\<close>

definition one_focused :: "Form \<Rightarrow> bool" where
  "one_focused f = (ti_focus (Form.title f) \<noteq> ta_focus (Form.description f))"

section \<open>Auxiliary notions\<close>

text \<open>
  The messages handled by the form alone: the form stays the current model and the
  program goes on. The result is the form and the registry after the last message, or
  \<open>None\<close> when a message completes the form or ends the program.
\<close>

fun form_msgs ::
  "(msg \<Rightarrow> textinput \<Rightarrow> textinput) \<Rightarrow> (msg \<Rightarrow> textarea \<Rightarrow> textarea) \<Rightarrow>
   msg list \<Rightarrow> Form \<Rightarrow> registry \<Rightarrow> (Form \<times> registry) option" where
  "form_msgs tiU taU [] f r = Some (f, r)"
| "form_msgs tiU taU (ms # mss) f r =
     (case Form_Update tiU taU ms f r of
        (FormM f', cm, r') \<Rightarrow> if cm = Quit then None else form_msgs tiU taU mss f' r'
      | (BoardM b, cm, r') \<Rightarrow> None)"

text \<open>
  What one message can do to the board of a program state: nothing, set \<open>quitting\<close>,
  hand a message to the focused column (after a change of focus or after the first
  window size), or show the columns as a command left them.
\<close>

definition board_moves :: "(msg \<Rightarrow> list_model \<Rightarrow> list_model) \<Rightarrow> Model \<Rightarrow> Model \<Rightarrow> bool" where
  "board_moves lU m m' =
     (m' = m \<or> m' = m\<lparr>quitting := True\<rparr> \<or>
      (\<exists>m1 l ms. (m1 = m \<or> m1 = Model_Prev m \<or> m1 = Model_Next m \<or>
                   (\<not> loaded m \<and> (\<exists>w h. m1 = (initLists w h m)\<lparr>loaded := True\<rparr>))) \<and>
                  at (lists m1) (Model.focused m1) = Some l \<and>
                  m' = m1\<lparr>lists := (lists m1)[nat (Model.focused m1) := lU ms l]\<rparr>) \<or>
      (\<exists>b'. (MoveToNext m = Some b' \<or> DeleteTask m = Some b') \<and> m' = m\<lparr>lists := lists b'\<rparr>))"

section \<open>Example inputs\<close>

text \<open>
  Concrete external components for the examples: a list that leaves its column as it is,
  and text fields that append the string of a key to their text.
\<close>

definition ignoring :: "msg \<Rightarrow> list_model \<Rightarrow> list_model" where
  "ignoring ms l = l"

definition typing :: "msg \<Rightarrow> string \<Rightarrow> string" where
  "typing ms s = (case ms of KeyMsg k \<Rightarrow> s @ k | _ \<Rightarrow> s)"

definition typing_title :: "msg \<Rightarrow> textinput \<Rightarrow> textinput" where
  "typing_title ms t = t\<lparr>ti_value := typing ms (ti_value t)\<rparr>"

definition typing_description :: "msg \<Rightarrow> textarea \<Rightarrow> textarea" where
  "typing_description ms t = t\<lparr>ta_value := typing ms (ta_value t)\<rparr>"

text \<open>
  The board after the first window size of 80 by 24, and the same board with one task
  in its first column.
\<close>

definition empty_board :: Model where
  "empty_board = (initLists 80 24 New)\<lparr>loaded := True\<rparr>"

definition one_task_board :: Model where
  "one_task_board =
     empty_board\<lparr>lists := (lists empty_board)
        [nat todo := InsertItem 0 (NewTask todo ''Write spec'' ''Core engine'')
                       (lists empty_board ! nat todo)]\<rparr>"




section \<open>The task cycle\<close>

lemma valid_status_cases: "valid_status s \<longleftrightarrow> s = 0 \<or> s = 1 \<or> s = 2"
  by (simp add: valid_status_def todo_def inProgress_def done_s_def)

lemma distinct_statuses: "todo \<noteq> inProgress \<and> inProgress \<noteq> done_s \<and> todo \<noteq> done_s"
  by (simp add: todo_def inProgress_def done_s_def)

text \<open>
  Claim C5. For every valid status of a task, advancing the task three times returns it
  to where it was, and one step goes from Todo to InProgress, from InProgress to Done and
  from Done to Todo. The title and the description are not touched.
\<close>

theorem Task_Next_cycle:
  assumes "valid_status (status t)"
  shows "Task_Next (Task_Next (Task_Next t)) = t \<and>
         status (Task_Next t) =
           (if status t = todo then inProgress
            else if status t = inProgress then done_s else todo) \<and>
         Task.title (Task_Next t) = Task.title t \<and>
         Task.description (Task_Next t) = Task.description t"
  using assms
  by (auto simp: valid_status_def Task_Next_def todo_def inProgress_def done_s_def)

theorem Task_Next_cycle_witness:
  "valid_status (status (NewTask done_s ''a'' ''b'')) \<and>
   Task_Next (Task_Next (Task_Next (NewTask done_s ''a'' ''b''))) = NewTask done_s ''a'' ''b'' \<and>
   status (Task_Next (NewTask done_s ''a'' ''b'')) = todo"
  using Task_Next_cycle [of "NewTask done_s ''a'' ''b''"]
  by (simp add: valid_status_def NewTask_def todo_def inProgress_def done_s_def)

section \<open>Columns and the two commands of the board\<close>

lemma at_Some: "at xs i = Some x \<longleftrightarrow> 0 \<le> i \<and> nat i < length xs \<and> x = xs ! nat i"
  by (auto simp: at_def)

lemma SelectedItem_Some:
  "SelectedItem l = Some t \<longleftrightarrow> Index l < length (items l) \<and> t = items l ! Index l"
  by (auto simp: SelectedItem_def)




lemma updatePagination_fields:
  "items (updatePagination l) = items l"
  "Title (updatePagination l) = Title l"
  "width (updatePagination l) = width l"
  "height (updatePagination l) = height l"
  "showHelp (updatePagination l) = showHelp l"
  "perPage (updatePagination l) = nat (max 1 (availHeight l sdiv 3))"
  "0 < perPage (updatePagination l)"
  by (simp_all add: updatePagination_def Let_def)




text \<open>
  The column after the selected item was removed from it. It has one item less. Its
  index is in range, or it is empty, exactly if the removed item was not the last one,
  or was the only one, or the number of items left is a multiple of the items per page.
\<close>

lemma RemoveItem_items:
  "i < length (items l) \<Longrightarrow>
   items (RemoveItem i l) = take i (items l) @ drop (Suc i) (items l)"
  by (simp add: RemoveItem_def updatePagination_fields)

lemma RemoveItem_frame:
  "Title (RemoveItem i l) = Title l" "width (RemoveItem i l) = width l"
  "height (RemoveItem i l) = height l" "showHelp (RemoveItem i l) = showHelp l"
  by (simp_all add: RemoveItem_def updatePagination_fields)


lemma DeleteTask_selected:
  assumes "at (lists m) (Model.focused m) = Some cur" and "SelectedItem cur = Some t"
  shows "DeleteTask m =
           Some (m\<lparr>lists := (lists m)[nat (Model.focused m) := RemoveItem (Index cur) cur]\<rparr>)"
  using assms by (simp add: DeleteTask_def)

text \<open>
  Whenever \<^verbatim>\<open>MoveToNext\<close> finds a selected task and returns, the board it leaves differs
  from the one it found in the focused column, which lost the task, and in the focus.
  No column received the task.
\<close>

lemma MoveToNext_selected:
  assumes "at (lists m) (Model.focused m) = Some cur" and "SelectedItem cur = Some t"
    and "MoveToNext m = Some m'"
  shows "m' = m\<lparr>lists := (lists m)[nat (Model.focused m) := RemoveItem (Index cur) cur],
                 Model.focused := status (Task_Next t)\<rparr>"
  using assms by (auto simp: MoveToNext_def Let_def split: option.splits)

lemma MoveToNext_returns:
  assumes "at (lists m) (Model.focused m) = Some cur" and "SelectedItem cur = Some t"
    and "0 \<le> status (Task_Next t)" and "nat (status (Task_Next t)) < length (lists m)"
  shows "MoveToNext m =
          Some (m\<lparr>lists := (lists m)[nat (Model.focused m) := RemoveItem (Index cur) cur],
                 Model.focused := status (Task_Next t)\<rparr>)"
  using assms by (auto simp: MoveToNext_def Let_def at_def split: option.splits)

lemma empty_board_eq:
  "empty_board =
     \<lparr>loaded = True, Model.focused = 0,
      lists = [\<lparr>items = [], cursor = 0, page = 0, perPage = 2, Title = ''To Do'',
                width = 20, height = 12, showHelp = False\<rparr>,
               \<lparr>items = [], cursor = 0, page = 0, perPage = 2, Title = ''In Progress'',
                width = 20, height = 12, showHelp = False\<rparr>,
               \<lparr>items = [], cursor = 0, page = 0, perPage = 2, Title = ''Done'',
                width = 20, height = 12, showHelp = False\<rparr>],
      quitting = False\<rparr>"
  by (simp add: empty_board_def initLists_def New_def list_New_def SetShowHelp_def divisor_def
      updatePagination_def Index_def availHeight_def SetTotalPages_def
      todo_def inProgress_def done_s_def Let_def)

lemma one_task_board_eq:
  "one_task_board =
     \<lparr>loaded = True, Model.focused = 0,
      lists = [\<lparr>items = [\<lparr>status = 0, title = ''Write spec'', description = ''Core engine''\<rparr>],
                cursor = 0, page = 0, perPage = 2, Title = ''To Do'',
                width = 20, height = 12, showHelp = False\<rparr>,
               \<lparr>items = [], cursor = 0, page = 0, perPage = 2, Title = ''In Progress'',
                width = 20, height = 12, showHelp = False\<rparr>,
               \<lparr>items = [], cursor = 0, page = 0, perPage = 2, Title = ''Done'',
                width = 20, height = 12, showHelp = False\<rparr>],
      quitting = False\<rparr>"
  by (simp add: one_task_board_def empty_board_eq InsertItem_def NewTask_def todo_def
      updatePagination_def Index_def availHeight_def SetTotalPages_def Let_def)

text \<open>
  Claim C1, at the board whose first column holds one selected task and whose other
  columns are empty. \<^verbatim>\<open>MoveToNext\<close> removes the task from the first column and sets the
  focus to InProgress, and the column InProgress is as empty as before: the task is in
  no column of the board.
\<close>

theorem MoveToNext_drops_task:
  "MoveToNext one_task_board = Some (empty_board\<lparr>Model.focused := inProgress\<rparr>) \<and>
   map Items (lists one_task_board) = [[NewTask todo ''Write spec'' ''Core engine''], [], []] \<and>
   map Items (lists empty_board) = [[], [], []]"
  by (simp add: one_task_board_eq empty_board_eq MoveToNext_def at_def SelectedItem_def
      RemoveItem_def Index_def Task_Next_def Items_def InsertItem_def NewTask_def
      updatePagination_def availHeight_def SetTotalPages_def
      todo_def done_s_def inProgress_def Let_def)

text \<open>
  On every board whose focused column exists and has no selected task, \<^verbatim>\<open>MoveToNext\<close>
  returns and leaves the whole board as it was: the columns, their selections, the focus
  and the flags.
\<close>

lemma MoveToNext_no_selection:
  assumes "at (lists m) (Model.focused m) = Some l" and "SelectedItem l = None"
  shows "MoveToNext m = Some m"
  using assms by (simp add: MoveToNext_def)

text \<open>
  On every board whose focused column exists, \<^verbatim>\<open>DeleteTask\<close> returns a board with the
  same focus and flags and the same other columns. If the focused column has a selected
  task, the column keeps its other tasks as they are, in their order; if it has none,
  the board is unchanged.
\<close>

lemma DeleteTask_frame:
  assumes "at (lists m) (Model.focused m) = Some cur"
  shows "\<exists>m'. DeleteTask m = Some m' \<and>
           Model.focused m' = Model.focused m \<and> loaded m' = loaded m \<and>
           quitting m' = quitting m \<and> length (lists m') = length (lists m) \<and>
           (\<forall>j < length (lists m). j \<noteq> nat (Model.focused m) \<longrightarrow> lists m' ! j = lists m ! j) \<and>
           (if SelectedItem cur = None then m' = m
            else items (lists m' ! nat (Model.focused m)) =
                   take (Index cur) (items cur) @ drop (Suc (Index cur)) (items cur))"
proof (cases "SelectedItem cur")
  case None
  then show ?thesis using assms by (simp add: DeleteTask_def)
next
  case (Some t)
  then have i: "Index cur < length (items cur)" by (simp add: SelectedItem_Some)
  from assms have inr: "nat (Model.focused m) < length (lists m)"
    by (simp add: at_Some)
  show ?thesis
    using inr i Some by (simp add: DeleteTask_selected [OF assms Some] RemoveItem_items)
qed

lemma initLists_fields:
  "Model.focused (initLists w h m) = Model.focused m"
  "loaded (initLists w h m) = loaded m"
  "quitting (initLists w h m) = quitting m"
  "length (lists (initLists w h m)) = 3"
  "map items (lists (initLists w h m)) = [[], [], []]"
  by (simp_all add: initLists_def Let_def list_New_def SetShowHelp_def
      updatePagination_fields todo_def inProgress_def done_s_def)


lemma Model_Next_fields:
  "loaded (Model_Next m) = loaded m" "lists (Model_Next m) = lists m"
  "quitting (Model_Next m) = quitting m"
  by (simp_all add: Model_Next_def)

lemma Model_Prev_fields:
  "loaded (Model_Prev m) = loaded m" "lists (Model_Prev m) = lists m"
  "quitting (Model_Prev m) = quitting m"
  by (simp_all add: Model_Prev_def)

lemma Model_Next_focus:
  "valid_status (Model.focused m) \<Longrightarrow> valid_status (Model.focused (Model_Next m))"
  by (auto simp: valid_status_cases Model_Next_def todo_def done_s_def)

lemma Model_Prev_focus:
  "valid_status (Model.focused m) \<Longrightarrow> valid_status (Model.focused (Model_Prev m))"
  by (auto simp: valid_status_cases Model_Prev_def todo_def done_s_def)

section \<open>What \<^verbatim>\<open>Update\<close> returns\<close>

lemma update_focused_Some:
  "update_focused lU ms m r = Some (c, cm, r') \<longleftrightarrow>
     (\<exists>l. at (lists m) (Model.focused m) = Some l \<and>
          c = BoardM (m\<lparr>lists := (lists m)[nat (Model.focused m) := lU ms l]\<rparr>) \<and>
          cm = LibCmd \<and> r' = r)"
  by (auto simp: update_focused_def split: option.splits)

lemma update_focused_id:
  assumes "0 \<le> Model.focused m" and "nat (Model.focused m) < length (lists m)"
    and "lU ms (lists m ! nat (Model.focused m)) = lists m ! nat (Model.focused m)"
  shows "update_focused lU ms m r = Some (BoardM m, LibCmd, r)"
  using assms by (simp add: update_focused_def at_def)

lemma Form_Update_ctrl_c: "Form_Update tiU taU (KeyMsg ''ctrl+c'') f r = (FormM f, Quit, r)"
  by (simp add: Form_Update_def)

lemma Form_Update_enter_title:
  "textinput_Focused (Form.title f) \<Longrightarrow>
   Form_Update tiU taU (KeyMsg ''enter'') f r =
     (FormM (f\<lparr>Form.title := textinput_Blur (Form.title f),
               Form.description := textarea_Focus (Form.description f)\<rparr>), Blink, r)"
  by (simp add: Form_Update_def)

lemma Form_Update_enter_description:
  "\<not> textinput_Focused (Form.title f) \<Longrightarrow>
   Form_Update tiU taU (KeyMsg ''enter'') f r =
     (BoardM (model r), CreateTaskCmd f, r\<lparr>form := f\<rparr>)"
  by (simp add: Form_Update_def Let_def)

lemma Form_Update_delegate:
  "ms \<noteq> KeyMsg ''ctrl+c'' \<Longrightarrow> ms \<noteq> KeyMsg ''enter'' \<Longrightarrow>
   Form_Update tiU taU ms f r =
     (FormM (if textinput_Focused (Form.title f)
             then f\<lparr>Form.title := tiU ms (Form.title f)\<rparr>
             else f\<lparr>Form.description := taU ms (Form.description f)\<rparr>), LibCmd, r)"
  by (simp add: Form_Update_def)

lemma Form_Update_cases:
  assumes "Form_Update tiU taU ms f r = (c, cm, r')"
  shows "model r' = model r \<and>
         ((\<exists>f'. c = FormM f' \<and> Form.focused f' = Form.focused f \<and>
                (cm = Quit \<or> cm = Blink \<or> cm = LibCmd)) \<or>
          (c = BoardM (model r) \<and> cm = CreateTaskCmd f))"
  using assms unfolding Form_Update_def Let_def
  by (simp split: if_splits) auto

lemma Form_Update_stays:
  assumes "Form_Update tiU taU ms f r = (FormM f', cm, r')"
  shows "r' = r \<and> cm \<noteq> CreateTaskCmd f \<and>
         (f' = f \<or>
          f' = f\<lparr>Form.title := textinput_Blur (Form.title f),
                 Form.description := textarea_Focus (Form.description f)\<rparr> \<or>
          (textinput_Focused (Form.title f) \<and> f' = f\<lparr>Form.title := tiU ms (Form.title f)\<rparr>) \<or>
          (\<not> textinput_Focused (Form.title f) \<and>
           f' = f\<lparr>Form.description := taU ms (Form.description f)\<rparr>))"
  using assms unfolding Form_Update_def Let_def
  by (simp split: if_splits)

lemma Model_Update_n:
  "Model_Update lU tiU taU (KeyMsg ''n'') m r =
     Some (FormM ((NewForm (Model.focused m))
              \<lparr>Form.title := tiU NilMsg (Form.title (NewForm (Model.focused m)))\<rparr>),
           LibCmd, r\<lparr>model := m, form := NewForm (Model.focused m)\<rparr>)"
  by (simp add: Model_Update_def Form_Update_def NewForm_def textinput_Focused_def
      textinput_Focus_def Let_def)

lemma Model_Update_ctrl_c:
  "Model_Update lU tiU taU (KeyMsg ''ctrl+c'') m r =
     Some (BoardM (m\<lparr>quitting := True\<rparr>), Quit, r)"
  by (simp add: Model_Update_def)

lemma Model_Update_left:
  "k = ''left'' \<or> k = ''h'' \<Longrightarrow>
   Model_Update lU tiU taU (KeyMsg k) m r = update_focused lU (KeyMsg k) (Model_Prev m) r"
  by (auto simp: Model_Update_def)

lemma Model_Update_right:
  "k = ''right'' \<or> k = ''l'' \<Longrightarrow>
   Model_Update lU tiU taU (KeyMsg k) m r = update_focused lU (KeyMsg k) (Model_Next m) r"
  by (auto simp: Model_Update_def)

lemma Model_Update_enter:
  "Model_Update lU tiU taU (KeyMsg ''enter'') m r = Some (BoardM m, MoveToNextCmd m, r)"
  by (simp add: Model_Update_def)

lemma Model_Update_d:
  "Model_Update lU tiU taU (KeyMsg ''d'') m r = Some (BoardM m, DeleteTaskCmd m, r)"
  by (simp add: Model_Update_def)

lemma Model_Update_other_key:
  "k \<noteq> ''ctrl+c'' \<Longrightarrow> k \<noteq> ''left'' \<Longrightarrow> k \<noteq> ''h'' \<Longrightarrow> k \<noteq> ''right'' \<Longrightarrow> k \<noteq> ''l'' \<Longrightarrow>
   k \<noteq> ''enter'' \<Longrightarrow> k \<noteq> ''d'' \<Longrightarrow> k \<noteq> ''n'' \<Longrightarrow>
   Model_Update lU tiU taU (KeyMsg k) m r = update_focused lU (KeyMsg k) m r"
  by (simp add: Model_Update_def)

lemma Model_Update_WindowSizeMsg:
  "Model_Update lU tiU taU (WindowSizeMsg w h) m r =
     update_focused lU (WindowSizeMsg w h)
       (if \<not> loaded m then (initLists w h m)\<lparr>loaded := True\<rparr> else m) r"
  by (simp add: Model_Update_def)

lemma Model_Update_cases:
  assumes "Model_Update lU tiU taU ms m r = Some (c, cm, r')"
  shows "(c = BoardM (m\<lparr>quitting := True\<rparr>) \<and> cm = Quit \<and> r' = r) \<or>
         (c = BoardM m \<and> (cm = MoveToNextCmd m \<or> cm = DeleteTaskCmd m) \<and> r' = r) \<or>
         (ms = KeyMsg ''n'' \<and> cm = LibCmd) \<or>
         (\<exists>m1. (m1 = m \<or> m1 = Model_Prev m \<or> m1 = Model_Next m \<or>
                 (\<not> loaded m \<and> (\<exists>w h. m1 = (initLists w h m)\<lparr>loaded := True\<rparr>))) \<and>
               update_focused lU ms m1 r = Some (c, cm, r'))"
proof (cases ms)
  case (KeyMsg k)
  consider "k = ''ctrl+c''" | "k = ''left'' \<or> k = ''h''" | "k = ''right'' \<or> k = ''l''"
    | "k = ''enter''" | "k = ''d''" | "k = ''n''"
    | "k \<noteq> ''ctrl+c''" "k \<noteq> ''left''" "k \<noteq> ''h''" "k \<noteq> ''right''" "k \<noteq> ''l''"
      "k \<noteq> ''enter''" "k \<noteq> ''d''" "k \<noteq> ''n''"
    by blast
  then show ?thesis
  proof cases
    case 1
    with assms KeyMsg show ?thesis by (simp add: Model_Update_ctrl_c)
  next
    case 2
    with assms KeyMsg have "update_focused lU ms (Model_Prev m) r = Some (c, cm, r')"
      by (simp add: Model_Update_left)
    then show ?thesis by blast
  next
    case 3
    with assms KeyMsg have "update_focused lU ms (Model_Next m) r = Some (c, cm, r')"
      by (simp add: Model_Update_right)
    then show ?thesis by blast
  next
    case 4
    with assms KeyMsg show ?thesis by (simp add: Model_Update_enter)
  next
    case 5
    with assms KeyMsg show ?thesis by (simp add: Model_Update_d)
  next
    case 6
    with assms KeyMsg show ?thesis by (simp add: Model_Update_n)
  next
    case 7
    with assms KeyMsg have "update_focused lU ms m r = Some (c, cm, r')"
      by (simp add: Model_Update_other_key)
    then show ?thesis by blast
  qed
next
  case (WindowSizeMsg w h)
  with assms have "update_focused lU ms
       (if \<not> loaded m then (initLists w h m)\<lparr>loaded := True\<rparr> else m) r = Some (c, cm, r')"
    by (simp add: Model_Update_WindowSizeMsg)
  then show ?thesis by (cases "loaded m") auto
next
  case NilMsg
  with assms have "update_focused lU ms m r = Some (c, cm, r')" by (simp add: Model_Update_def)
  then show ?thesis by blast
next
  case (TaskMsg t)
  with assms have "update_focused lU ms m r = Some (c, cm, r')" by (simp add: Model_Update_def)
  then show ?thesis by blast
next
  case (LibMsg n)
  with assms have "update_focused lU ms m r = Some (c, cm, r')" by (simp add: Model_Update_def)
  then show ?thesis by blast
qed

section \<open>One message of the running program\<close>

lemma step_new:
  "step lU tiU taU (KeyMsg ''n'') \<lparr>current = BoardM m, models = r, ended = False\<rparr> =
     Some \<lparr>current = FormM ((NewForm (Model.focused m))
                \<lparr>Form.title := tiU NilMsg (Form.title (NewForm (Model.focused m)))\<rparr>),
           models = r\<lparr>model := m, form := NewForm (Model.focused m)\<rparr>, ended = False\<rparr>"
  by (simp add: step_def tea_Update_def Model_Update_n run_cmd_def)

lemma step_form_key:
  "ms \<noteq> KeyMsg ''ctrl+c'' \<Longrightarrow> ms \<noteq> KeyMsg ''enter'' \<Longrightarrow>
   step lU tiU taU ms \<lparr>current = FormM f, models = r, ended = False\<rparr> =
     Some \<lparr>current = FormM (if textinput_Focused (Form.title f)
                             then f\<lparr>Form.title := tiU ms (Form.title f)\<rparr>
                             else f\<lparr>Form.description := taU ms (Form.description f)\<rparr>),
           models = r, ended = False\<rparr>"
  by (simp add: step_def tea_Update_def Form_Update_delegate run_cmd_def)

lemma step_confirm_title:
  "textinput_Focused (Form.title f) \<Longrightarrow>
   step lU tiU taU (KeyMsg ''enter'') \<lparr>current = FormM f, models = r, ended = False\<rparr> =
     Some \<lparr>current = FormM (f\<lparr>Form.title := textinput_Blur (Form.title f),
                              Form.description := textarea_Focus (Form.description f)\<rparr>),
           models = r, ended = False\<rparr>"
  by (simp add: step_def tea_Update_def Form_Update_enter_title run_cmd_def)

text \<open>
  The second confirmation of a form, for every form, registry and external list: the
  saved board becomes the current model again, and the created task reaches it as a
  message that \<^verbatim>\<open>Model.Update\<close> has no case for. The message is handed to the focused
  column's own \<^verbatim>\<open>Update\<close>; \<^verbatim>\<open>InsertItem\<close> is not called.
\<close>

lemma step_confirm_description:
  assumes "\<not> textinput_Focused (Form.title f)"
    and "at (lists (model r)) (Model.focused (model r)) = Some l"
  shows "step lU tiU taU (KeyMsg ''enter'') \<lparr>current = FormM f, models = r, ended = False\<rparr> =
           Some \<lparr>current = BoardM ((model r)\<lparr>lists := (lists (model r))
                              [nat (Model.focused (model r)) := lU (TaskMsg (CreateTask f)) l]\<rparr>),
                 models = r\<lparr>form := f\<rparr>, ended = False\<rparr>"
  using assms
  by (simp add: step_def tea_Update_def Form_Update_enter_description run_cmd_def
      Model_Update_def update_focused_def)

text \<open>
  The key \<^verbatim>\<open>enter\<close> on a board with a selected task, for every board: the running board
  loses the task from its focused column, and neither its other columns nor its focus
  change, since the command works on the copy of the board bound in \<^verbatim>\<open>Update\<close>.
\<close>

lemma step_enter:
  assumes "at (lists m) (Model.focused m) = Some cur" and "SelectedItem cur = Some t"
    and "MoveToNext m = Some b'"
  shows "step lU tiU taU (KeyMsg ''enter'') \<lparr>current = BoardM m, models = r, ended = False\<rparr> =
           Some \<lparr>current = BoardM (m\<lparr>lists := (lists m)
                              [nat (Model.focused m) := RemoveItem (Index cur) cur]\<rparr>),
                 models = r, ended = False\<rparr>"
  using MoveToNext_selected [OF assms] assms(3)
  by (simp add: step_def tea_Update_def Model_Update_enter run_cmd_def share_def)

lemma step_window:
  "step ignoring tiU taU (WindowSizeMsg 80 24) main =
     Some \<lparr>current = BoardM empty_board, models = models main, ended = False\<rparr>"
  by (simp add: step_def main_def tea_Update_def Model_Update_WindowSizeMsg New_def
      update_focused_def at_def initLists_fields run_cmd_def ignoring_def empty_board_def)

lemma DeleteTask_one_task: "DeleteTask one_task_board = Some empty_board"
  by (simp add: one_task_board_eq empty_board_eq DeleteTask_def at_def SelectedItem_def
      RemoveItem_def Index_def updatePagination_def availHeight_def SetTotalPages_def Let_def)

lemma step_delete:
  "step ignoring tiU taU (KeyMsg ''d'')
     \<lparr>current = BoardM one_task_board, models = models main, ended = False\<rparr> =
     Some \<lparr>current = BoardM empty_board, models = models main, ended = False\<rparr>"
  by (simp add: step_def tea_Update_def Model_Update_d run_cmd_def share_def
      DeleteTask_one_task)
     (simp add: one_task_board_eq empty_board_eq)

text \<open>
  Claim C6, at the board that \<^verbatim>\<open>main\<close> starts with. It has no columns yet, so it has no
  task and no selected task. \<^verbatim>\<open>MoveToNext\<close> panics on it at \<^verbatim>\<open>m.lists[m.focused]\<close>, and
  so does the program when the key \<^verbatim>\<open>enter\<close> is its first message.
\<close>

theorem MoveToNext_panics_without_columns:
  "MoveToNext New = None \<and>
   exec ignoring typing_title typing_description [KeyMsg ''enter''] main = None"
  by (simp add: MoveToNext_def New_def at_def step_def main_def tea_Update_def
      Model_Update_enter run_cmd_def)

text \<open>
  Claim C7, at the board that \<^verbatim>\<open>main\<close> starts with. \<^verbatim>\<open>DeleteTask\<close> panics on it at
  \<^verbatim>\<open>m.lists[m.focused]\<close>, and so does the program when the key \<^verbatim>\<open>d\<close> is its first
  message.
\<close>

theorem DeleteTask_panics_without_columns:
  "DeleteTask New = None \<and>
   exec ignoring typing_title typing_description [KeyMsg ''d''] main = None"
  by (simp add: DeleteTask_def New_def at_def step_def main_def tea_Update_def
      Model_Update_d run_cmd_def)

text \<open>
  Claim C2, at the target status Todo, the title \<open>T\<close> and the description \<open>D\<close>, on the
  board after the first window size. The form is opened, \<open>T\<close> is typed and confirmed, \<open>D\<close>
  is typed and confirmed. The current model is the board again, and its three columns
  are as empty as before: the task was created and is in no column.
\<close>

theorem form_task_not_inserted:
  "exec ignoring typing_title typing_description
     [WindowSizeMsg 80 24, KeyMsg ''n'', KeyMsg ''T'', KeyMsg ''enter'', KeyMsg ''D'',
      KeyMsg ''enter'']
     main =
   Some \<lparr>current = BoardM empty_board,
         models = \<lparr>model = empty_board,
                   form = \<lparr>Form.focused = todo,
                           title = \<lparr>ti_value = ''T'', ti_focus = False\<rparr>,
                           description = \<lparr>ta_value = ''D'', ta_focus = True\<rparr>\<rparr>\<rparr>,
         ended = False\<rparr> \<and>
   map Items (lists empty_board) = [[], [], []]"
proof -
  let ?r = "\<lparr>model = empty_board, form = NewForm todo\<rparr>"
  let ?fa = "\<lparr>Form.focused = todo, title = \<lparr>ti_value = [], ti_focus = True\<rparr>,
              description = \<lparr>ta_value = [], ta_focus = False\<rparr>\<rparr>"
  let ?fb = "\<lparr>Form.focused = todo, title = \<lparr>ti_value = ''T'', ti_focus = True\<rparr>,
              description = \<lparr>ta_value = [], ta_focus = False\<rparr>\<rparr>"
  let ?fc = "\<lparr>Form.focused = todo, title = \<lparr>ti_value = ''T'', ti_focus = False\<rparr>,
              description = \<lparr>ta_value = [], ta_focus = True\<rparr>\<rparr>"
  let ?fd = "\<lparr>Form.focused = todo, title = \<lparr>ti_value = ''T'', ti_focus = False\<rparr>,
              description = \<lparr>ta_value = ''D'', ta_focus = True\<rparr>\<rparr>"
  let ?lU = ignoring and ?tiU = typing_title and ?taU = typing_description
  have s1: "step ?lU ?tiU ?taU (WindowSizeMsg 80 24) main =
      Some \<lparr>current = BoardM empty_board, models = models main, ended = False\<rparr>"
    by (rule step_window)
  have s2: "step ?lU ?tiU ?taU (KeyMsg ''n'')
        \<lparr>current = BoardM empty_board, models = models main, ended = False\<rparr> =
      Some \<lparr>current = FormM ?fa, models = ?r, ended = False\<rparr>"
    by (simp add: step_new main_def empty_board_eq NewForm_def textinput_Focus_def
        textinput_New_def textarea_New_def typing_title_def typing_def todo_def)
  have s3: "step ?lU ?tiU ?taU (KeyMsg ''T'')
        \<lparr>current = FormM ?fa, models = ?r, ended = False\<rparr> =
      Some \<lparr>current = FormM ?fb, models = ?r, ended = False\<rparr>"
    by (simp add: step_form_key textinput_Focused_def typing_title_def typing_def)
  have s4: "step ?lU ?tiU ?taU (KeyMsg ''enter'')
        \<lparr>current = FormM ?fb, models = ?r, ended = False\<rparr> =
      Some \<lparr>current = FormM ?fc, models = ?r, ended = False\<rparr>"
    by (simp add: step_confirm_title textinput_Focused_def textinput_Blur_def
        textarea_Focus_def)
  have s5: "step ?lU ?tiU ?taU (KeyMsg ''D'')
        \<lparr>current = FormM ?fc, models = ?r, ended = False\<rparr> =
      Some \<lparr>current = FormM ?fd, models = ?r, ended = False\<rparr>"
    by (simp add: step_form_key textinput_Focused_def typing_description_def typing_def)
  have l: "at (lists (model ?r)) (Model.focused (model ?r)) = Some (lists empty_board ! 0)"
    by (simp add: at_def empty_board_eq)
  have s6: "step ?lU ?tiU ?taU (KeyMsg ''enter'')
        \<lparr>current = FormM ?fd, models = ?r, ended = False\<rparr> =
      Some \<lparr>current = BoardM empty_board, models = \<lparr>model = empty_board, form = ?fd\<rparr>,
            ended = False\<rparr>"
    by (simp add: step_confirm_description [OF _ l] textinput_Focused_def ignoring_def)
       (simp add: empty_board_eq)
  have e: "map Items (lists empty_board) = [[], [], []]"
    by (simp add: empty_board_eq Items_def)
  from s1 s2 s3 s4 s5 s6 e show ?thesis by simp
qed

section \<open>The board under a sequence of messages\<close>

lemma DeleteTask_lists:
  assumes "DeleteTask m = Some b'"
  shows "lists b' = lists m \<or>
         (\<exists>cur t. at (lists m) (Model.focused m) = Some cur \<and> SelectedItem cur = Some t \<and>
            lists b' = (lists m)[nat (Model.focused m) := RemoveItem (Index cur) cur])"
  using assms by (auto simp: DeleteTask_def split: option.splits)

lemma MoveToNext_lists:
  assumes "MoveToNext m = Some b'"
  shows "lists b' = lists m \<or>
         (\<exists>cur t. at (lists m) (Model.focused m) = Some cur \<and> SelectedItem cur = Some t \<and>
            lists b' = (lists m)[nat (Model.focused m) := RemoveItem (Index cur) cur])"
  using assms by (auto simp: MoveToNext_def Let_def split: option.splits)

lemma cmd_lists:
  assumes "MoveToNext m = Some b' \<or> DeleteTask m = Some b'"
  shows "lists b' = lists m \<or>
         (\<exists>cur t. at (lists m) (Model.focused m) = Some cur \<and> SelectedItem cur = Some t \<and>
            lists b' = (lists m)[nat (Model.focused m) := RemoveItem (Index cur) cur])"
  using assms MoveToNext_lists DeleteTask_lists by blast


lemma step_board_mode:
  assumes "step lU tiU taU ms p = Some p'" and "\<not> ended p" and "current p = BoardM m"
  shows "board_moves lU m (board p')"
proof -
  from assms obtain c cm r where
    U: "Model_Update lU tiU taU ms m (models p) = Some (c, cm, r)"
    by (cases "Model_Update lU tiU taU ms m (models p)") (auto simp: step_def tea_Update_def)
  from assms U have S: "run_cmd lU tiU taU cm c r = Some p'"
    by (simp add: step_def tea_Update_def)
  from Model_Update_cases [OF U]
  consider (quit) "c = BoardM (m\<lparr>quitting := True\<rparr>)" "cm = Quit"
    | (move) "c = BoardM m" "cm = MoveToNextCmd m"
    | (del) "c = BoardM m" "cm = DeleteTaskCmd m"
    | (new) "ms = KeyMsg ''n''"
    | (upd) m1 where "m1 = m \<or> m1 = Model_Prev m \<or> m1 = Model_Next m \<or>
                 (\<not> loaded m \<and> (\<exists>w h. m1 = (initLists w h m)\<lparr>loaded := True\<rparr>))"
               "update_focused lU ms m1 (models p) = Some (c, cm, r)"
    by blast
  then show ?thesis
  proof cases
    case quit
    with S show ?thesis by (auto simp: run_cmd_def board_moves_def board_def)
  next
    case move
    with S show ?thesis
      by (auto simp: run_cmd_def board_moves_def board_def share_def split: option.splits)
  next
    case del
    with S show ?thesis
      by (auto simp: run_cmd_def board_moves_def board_def share_def split: option.splits)
  next
    case new
    with U S show ?thesis
      by (auto simp: run_cmd_def Model_Update_n board_moves_def board_def)
  next
    case upd
    from upd(2) obtain l where l: "at (lists m1) (Model.focused m1) = Some l"
      "c = BoardM (m1\<lparr>lists := (lists m1)[nat (Model.focused m1) := lU ms l]\<rparr>)" "cm = LibCmd"
      by (auto simp: update_focused_Some)
    with S have "board p' = m1\<lparr>lists := (lists m1)[nat (Model.focused m1) := lU ms l]\<rparr>"
      by (auto simp: run_cmd_def board_def)
    with upd(1) l(1) show ?thesis unfolding board_moves_def by blast
  qed
qed

lemma step_form_mode:
  assumes "step lU tiU taU ms p = Some p'" and "\<not> ended p" and "current p = FormM f"
  shows "board_moves lU (model (models p)) (board p')"
proof -
  obtain c cm r where U: "Form_Update tiU taU ms f (models p) = (c, cm, r)"
    by (metis prod_cases3)
  from assms U have S: "run_cmd lU tiU taU cm c r = Some p'"
    by (simp add: step_def tea_Update_def)
  from Form_Update_cases [OF U] have mr: "model r = model (models p)" by simp
  from Form_Update_cases [OF U]
  consider (stay) f' where "c = FormM f'" "cm = Quit \<or> cm = Blink \<or> cm = LibCmd"
    | (fin) "c = BoardM (model (models p))" "cm = CreateTaskCmd f"
    by blast
  then show ?thesis
  proof cases
    case stay
    with S mr show ?thesis by (auto simp: run_cmd_def board_moves_def board_def)
  next
    case fin
    with S obtain c' cm' r' where
      T: "update_focused lU (TaskMsg (CreateTask f)) (model (models p)) r = Some (c', cm', r')"
      and p': "p' = \<lparr>current = c', models = r', ended = False\<rparr>"
      by (auto simp: run_cmd_def tea_Update_def Model_Update_def split: option.splits)
    from T obtain l where l: "at (lists (model (models p))) (Model.focused (model (models p))) = Some l"
      "c' = BoardM ((model (models p))\<lparr>lists := (lists (model (models p)))[nat (Model.focused (model (models p))) := lU (TaskMsg (CreateTask f)) l]\<rparr>)"
      by (auto simp: update_focused_Some)
    with p' show ?thesis unfolding board_moves_def board_def by auto
  qed
qed

lemma step_board_moves:
  assumes "step lU tiU taU ms p = Some p'"
  shows "board_moves lU (board p) (board p')"
proof (cases "ended p")
  case True
  with assms show ?thesis by (simp add: step_def board_moves_def)
next
  case False
  show ?thesis
  proof (cases "current p")
    case (BoardM m)
    with step_board_mode [OF assms False BoardM] show ?thesis by (simp add: board_def)
  next
    case (FormM f)
    with step_form_mode [OF assms False FormM] show ?thesis by (simp add: board_def)
  qed
qed

lemma board_moves_focus:
  assumes "board_moves lU m m'" and "valid_status (Model.focused m)"
  shows "valid_status (Model.focused m')"
  using assms unfolding board_moves_def
  by (auto simp: Model_Next_focus Model_Prev_focus initLists_fields)

lemma board_moves_loaded:
  assumes "board_moves lU m m'" and "loaded m"
  shows "loaded m'"
  using assms unfolding board_moves_def
  by (auto simp: Model_Next_fields Model_Prev_fields)

lemma board_moves_length:
  assumes "board_moves lU m m'" and "loaded m"
  shows "length (lists m') = length (lists m)"
  using assms unfolding board_moves_def
  by (auto simp: Model_Next_fields Model_Prev_fields dest!: cmd_lists)




lemma exec_induct_board:
  assumes "exec lU tiU taU mss p = Some p'" and "P (board p)"
    and "\<And>m m'. board_moves lU m m' \<Longrightarrow> P m \<Longrightarrow> P m'"
  shows "P (board p')"
  using assms(1,2)
proof (induction mss arbitrary: p)
  case Nil
  then show ?case by simp
next
  case (Cons ms mss)
  from Cons.prems(1) obtain p1 where s: "step lU tiU taU ms p = Some p1"
    and e: "exec lU tiU taU mss p1 = Some p'"
    by (auto split: option.splits)
  from assms(3) [OF step_board_moves [OF s] Cons.prems(2)] have "P (board p1)" .
  from Cons.IH [OF e this] show ?case .
qed

lemma main_board: "board main = New"
  by (simp add: main_def board_def)

lemma exec_focus:
  assumes "exec lU tiU taU mss p = Some p'" and "valid_status (Model.focused (board p))"
  shows "valid_status (Model.focused (board p'))"
  using assms(1) assms(2) board_moves_focus
  by (rule exec_induct_board [where P = "\<lambda>m. valid_status (Model.focused m)"])

lemma exec_loaded:
  assumes "exec lU tiU taU mss p = Some p'" and "loaded (board p)"
  shows "loaded (board p')"
  using assms(1) assms(2) board_moves_loaded
  by (rule exec_induct_board [where P = loaded])

lemma exec_three:
  assumes "exec lU tiU taU mss p = Some p'" and "loaded (board p) \<and> length (lists (board p)) = 3"
  shows "loaded (board p') \<and> length (lists (board p')) = 3"
  using assms(1) assms(2)
proof (rule exec_induct_board [where P = "\<lambda>m. loaded m \<and> length (lists m) = 3"])
  fix m m'
  assume "board_moves lU m m'" and "loaded m \<and> length (lists m) = 3"
  then show "loaded m' \<and> length (lists m') = 3"
    using board_moves_loaded board_moves_length by metis
qed


section \<open>Focus navigation\<close>

text \<open>
  Claim C8. On every board with a valid focus, \<^verbatim>\<open>Next\<close> and \<^verbatim>\<open>Prev\<close> are inverse to each
  other, three applications of either give the board back, and one step follows the
  order Todo, InProgress, Done, wrapping between Done and Todo. On every board they
  change no column and no flag. The three statuses are distinct, and in every state the
  program reaches from \<^verbatim>\<open>main\<close> the focus of the board is one of them.
\<close>

theorem focus_navigation_cyclic:
  "(valid_status (Model.focused m) \<longrightarrow>
      Model_Prev (Model_Next m) = m \<and> Model_Next (Model_Prev m) = m \<and>
      Model_Next (Model_Next (Model_Next m)) = m \<and>
      Model_Prev (Model_Prev (Model_Prev m)) = m \<and>
      Model.focused (Model_Next m) =
        (if Model.focused m = todo then inProgress
         else if Model.focused m = inProgress then done_s else todo) \<and>
      Model.focused (Model_Prev m) =
        (if Model.focused m = todo then done_s
         else if Model.focused m = inProgress then todo else inProgress)) \<and>
   lists (Model_Next m) = lists m \<and> loaded (Model_Next m) = loaded m \<and>
   quitting (Model_Next m) = quitting m \<and>
   lists (Model_Prev m) = lists m \<and> loaded (Model_Prev m) = loaded m \<and>
   quitting (Model_Prev m) = quitting m \<and>
   todo \<noteq> inProgress \<and> inProgress \<noteq> done_s \<and> todo \<noteq> done_s \<and>
   (exec lU tiU taU mss main = Some p \<longrightarrow> valid_status (Model.focused (board p)))"
proof -
  have cyc: "valid_status (Model.focused m) \<longrightarrow>
      Model_Prev (Model_Next m) = m \<and> Model_Next (Model_Prev m) = m \<and>
      Model_Next (Model_Next (Model_Next m)) = m \<and>
      Model_Prev (Model_Prev (Model_Prev m)) = m \<and>
      Model.focused (Model_Next m) =
        (if Model.focused m = todo then inProgress
         else if Model.focused m = inProgress then done_s else todo) \<and>
      Model.focused (Model_Prev m) =
        (if Model.focused m = todo then done_s
         else if Model.focused m = inProgress then todo else inProgress)"
    by (auto simp: valid_status_cases Model_Next_def Model_Prev_def todo_def inProgress_def done_s_def)
  have "valid_status (Model.focused (board main))"
    by (simp add: main_board New_def valid_status_cases)
  then have reach: "exec lU tiU taU mss main = Some p \<longrightarrow> valid_status (Model.focused (board p))"
    using exec_focus by blast
  from cyc reach distinct_statuses show ?thesis
    by (simp only: Model_Next_fields Model_Prev_fields simp_thms)
qed

theorem focus_navigation_cyclic_witness:
  "valid_status (Model.focused empty_board) \<and>
   Model_Prev (Model_Next empty_board) = empty_board \<and>
   Model.focused (Model_Next empty_board) = inProgress \<and>
   Model.focused (Model_Prev empty_board) = done_s \<and>
   exec ignoring typing_title typing_description [WindowSizeMsg 80 24, KeyMsg ''left''] main =
     Some \<lparr>current = BoardM (empty_board\<lparr>Model.focused := done_s\<rparr>), models = models main, ended = False\<rparr> \<and>
   valid_status (Model.focused (empty_board\<lparr>Model.focused := done_s\<rparr>))"
proof -
  let ?p = "\<lparr>current = BoardM (empty_board\<lparr>Model.focused := done_s\<rparr>), models = models main, ended = False\<rparr>"
  have v: "valid_status (Model.focused empty_board)"
    by (simp add: empty_board_eq valid_status_cases)
  have f: "Model.focused empty_board = todo"
    by (simp add: empty_board_eq todo_def)
  have s: "step ignoring typing_title typing_description (KeyMsg ''left'')
             \<lparr>current = BoardM empty_board, models = models main, ended = False\<rparr> = Some ?p"
    by (simp add: step_def tea_Update_def Model_Update_left update_focused_def run_cmd_def
        ignoring_def Model_Prev_def)
       (simp add: empty_board_eq at_def todo_def done_s_def run_cmd_def ignoring_def)
  have e: "exec ignoring typing_title typing_description [WindowSizeMsg 80 24, KeyMsg ''left''] main = Some ?p"
    by (simp add: step_window s)
  from focus_navigation_cyclic [of empty_board ignoring typing_title typing_description
         "[WindowSizeMsg 80 24, KeyMsg ''left'']" ?p] v f e
  show ?thesis by (simp add: board_def distinct_statuses)
qed

section \<open>The columns are initialised once\<close>

text \<open>
  Claim C9. On a board that is not loaded, the first window size gives three empty
  columns and sets \<open>loaded\<close>. In every state reached from there the board is loaded and
  has its three columns, and a further window size returns the board as it is, without
  running the initialiser again. The external list is assumed to leave a column as it is
  on a window size.
\<close>

theorem initLists_once:
  assumes "\<not> loaded m" and "valid_status (Model.focused m)"
    and lU: "\<forall>w h l. lU (WindowSizeMsg w h) l = l"
  shows "\<exists>m1. Model_Update lU tiU taU (WindowSizeMsg w h) m r = Some (BoardM m1, LibCmd, r) \<and>
           loaded m1 \<and> map Items (lists m1) = [[], [], []] \<and>
           (\<forall>mss p. exec lU tiU taU mss \<lparr>current = BoardM m1, models = r, ended = False\<rparr> = Some p \<longrightarrow>
              loaded (board p) \<and> length (lists (board p)) = 3 \<and>
              (\<forall>m' w' h'. current p = BoardM m' \<longrightarrow>
                 Model_Update lU tiU taU (WindowSizeMsg w' h') m' (models p) =
                   Some (BoardM m', LibCmd, models p)))"
proof -
  let ?first = "(initLists w h m)\<lparr>loaded := True\<rparr>"
  let ?start = "\<lparr>current = BoardM ?first, models = r, ended = False\<rparr>"
  from assms(2) have f: "0 \<le> Model.focused ?first" "nat (Model.focused ?first) < length (lists ?first)"
    by (auto simp: valid_status_cases initLists_fields)
  have U: "Model_Update lU tiU taU (WindowSizeMsg w h) m r = Some (BoardM ?first, LibCmd, r)"
    using assms(1) f lU by (simp add: Model_Update_WindowSizeMsg update_focused_id)
  have I: "map Items (lists ?first) = [[], [], []]"
    using initLists_fields(5) [of w h m] by (simp add: Items_def [abs_def])
  have R: "loaded (board p) \<and> length (lists (board p)) = 3 \<and>
              (\<forall>m' w' h'. current p = BoardM m' \<longrightarrow>
                 Model_Update lU tiU taU (WindowSizeMsg w' h') m' (models p) =
                   Some (BoardM m', LibCmd, models p))"
    if e: "exec lU tiU taU mss ?start = Some p" for mss p
  proof -
    have b1: "board ?start = ?first" by (simp add: board_def)
    from exec_three [OF e] b1 have L: "loaded (board p) \<and> length (lists (board p)) = 3"
      by (simp add: initLists_fields)
    from exec_focus [OF e] b1 assms(2) have V: "valid_status (Model.focused (board p))"
      by (simp add: initLists_fields)
    have "Model_Update lU tiU taU (WindowSizeMsg w' h') m' (models p) =
                   Some (BoardM m', LibCmd, models p)" if c: "current p = BoardM m'" for m' w' h'
    proof -
      from c have "board p = m'" by (simp add: board_def)
      with L V have "loaded m'" "0 \<le> Model.focused m'" "nat (Model.focused m') < length (lists m')"
        by (auto simp: valid_status_cases)
      with lU show ?thesis by (simp add: Model_Update_WindowSizeMsg update_focused_id)
    qed
    with L show ?thesis by blast
  qed
  from U I R show ?thesis by (intro exI [of _ ?first]) simp
qed

theorem initLists_once_witness:
  "\<not> loaded New \<and> valid_status (Model.focused New) \<and>
   (\<forall>w h l. ignoring (WindowSizeMsg w h) l = l) \<and>
   Model_Update ignoring typing_title typing_description (WindowSizeMsg 80 24) New (models main) =
     Some (BoardM empty_board, LibCmd, models main) \<and>
   loaded empty_board \<and> map Items (lists empty_board) = [[], [], []] \<and>
   Model_Update ignoring typing_title typing_description (WindowSizeMsg 120 40) empty_board (models main) =
     Some (BoardM empty_board, LibCmd, models main)"
proof -
  let ?start = "\<lparr>current = BoardM empty_board, models = models main, ended = False\<rparr>"
  have a: "\<not> loaded New" by (simp add: New_def)
  have b: "valid_status (Model.focused New)" by (simp add: New_def valid_status_cases)
  have c: "\<forall>w h l. ignoring (WindowSizeMsg w h) l = l" by (simp add: ignoring_def)
  have U: "Model_Update ignoring typing_title typing_description (WindowSizeMsg 80 24) New (models main) =
     Some (BoardM empty_board, LibCmd, models main)"
    by (simp add: Model_Update_WindowSizeMsg New_def update_focused_def at_def initLists_fields
        ignoring_def empty_board_def)
  have e: "exec ignoring typing_title typing_description [] ?start = Some ?start" by simp
  from initLists_once [OF a b c, of typing_title typing_description 80 24 "models main"]
  obtain m1 where
    W: "Model_Update ignoring typing_title typing_description (WindowSizeMsg 80 24) New (models main) =
           Some (BoardM m1, LibCmd, models main) \<and>
        loaded m1 \<and> map Items (lists m1) = [[], [], []] \<and>
        (\<forall>mss p. exec ignoring typing_title typing_description mss
               \<lparr>current = BoardM m1, models = models main, ended = False\<rparr> = Some p \<longrightarrow>
              loaded (board p) \<and> length (lists (board p)) = 3 \<and>
              (\<forall>m' w' h'. current p = BoardM m' \<longrightarrow>
                 Model_Update ignoring typing_title typing_description (WindowSizeMsg w' h') m' (models p) =
                   Some (BoardM m', LibCmd, models p)))"
    by (erule exE)
  from W U have m1: "m1 = empty_board" by simp
  from W m1 have L: "loaded empty_board" "map Items (lists empty_board) = [[], [], []]"
    by simp_all
  from W m1 have "exec ignoring typing_title typing_description [] ?start = Some ?start \<longrightarrow>
      (\<forall>m' w' h'. current ?start = BoardM m' \<longrightarrow>
         Model_Update ignoring typing_title typing_description (WindowSizeMsg w' h') m' (models ?start) =
           Some (BoardM m', LibCmd, models ?start))"
    by blast
  with e have "Model_Update ignoring typing_title typing_description (WindowSizeMsg 120 40)
       empty_board (models main) = Some (BoardM empty_board, LibCmd, models main)"
    by simp
  with a b c U L show ?thesis by simp
qed

section \<open>Selections after a removal\<close>






section \<open>The form\<close>

lemma Form_Update_focus:
  assumes "Form_Update tiU taU ms f r = (FormM f', cm, r')" and "one_focused f"
    and ti: "\<forall>ms t. ti_focus (tiU ms t) = ti_focus t"
    and ta: "\<forall>ms t. ta_focus (taU ms t) = ta_focus t"
  shows "one_focused f'"
  using Form_Update_stays [OF assms(1)] assms(2) ti ta
  by (auto simp: one_focused_def textinput_Blur_def textarea_Focus_def textinput_Focused_def)

lemma form_msgs_registry:
  assumes "form_msgs tiU taU mss f r = Some (f', r')"
  shows "r' = r"
  using assms
proof (induction mss arbitrary: f)
  case Nil
  then show ?case by simp
next
  case (Cons ms mss)
  obtain c cm r1 where U: "Form_Update tiU taU ms f r = (c, cm, r1)"
    by (metis prod_cases3)
  with Cons.prems obtain f1 where c: "c = FormM f1" and rest: "form_msgs tiU taU mss f1 r1 = Some (f', r')"
    by (cases c) (auto split: if_splits)
  from Form_Update_stays [OF U [unfolded c]] have "r1 = r" by simp
  with Cons.IH rest show ?case by blast
qed

lemma form_msgs_exec:
  assumes "form_msgs tiU taU mss f r = Some (f', r')"
  shows "exec lU tiU taU mss \<lparr>current = FormM f, models = r, ended = False\<rparr> =
           Some \<lparr>current = FormM f', models = r', ended = False\<rparr>"
  using assms
proof (induction mss arbitrary: f r)
  case Nil
  then show ?case by simp
next
  case (Cons ms mss)
  obtain c cm r1 where U: "Form_Update tiU taU ms f r = (c, cm, r1)"
    by (metis prod_cases3)
  with Cons.prems obtain f1 where c: "c = FormM f1" and q: "cm \<noteq> Quit"
    and rest: "form_msgs tiU taU mss f1 r1 = Some (f', r')"
    by (cases c) (auto split: if_splits)
  from Form_Update_cases [OF U] c q have "cm = Blink \<or> cm = LibCmd" by auto
  with U c have "step lU tiU taU ms \<lparr>current = FormM f, models = r, ended = False\<rparr> =
      Some \<lparr>current = FormM f1, models = r1, ended = False\<rparr>"
    by (auto simp: step_def tea_Update_def run_cmd_def)
  with Cons.IH [OF rest] show ?case by simp
qed

text \<open>
  Claim C3. The key \<^verbatim>\<open>n\<close> saves the board in the registry and makes a form for the
  focused status the current model. After any messages handled by the form alone the
  saved board is still the board that was saved. The terminate key returns the command
  \<^verbatim>\<open>tea.Quit\<close>, not a task, and ends the program with the form and the registry as they
  are. A confirmation moves from the title to the description or, on the description,
  returns the saved board as the current model.
\<close>

theorem form_leaves_board:
  "\<exists>f0 r0. Model_Update lU tiU taU (KeyMsg ''n'') m r = Some (FormM f0, LibCmd, r0) \<and>
      model r0 = m \<and> Form.focused f0 = Model.focused m \<and>
      (\<forall>mss f r1. form_msgs tiU taU mss f0 r0 = Some (f, r1) \<longrightarrow>
         model r1 = m \<and>
         Form_Update tiU taU (KeyMsg ''ctrl+c'') f r1 = (FormM f, Quit, r1) \<and>
         step lU tiU taU (KeyMsg ''ctrl+c'') \<lparr>current = FormM f, models = r1, ended = False\<rparr> =
           Some \<lparr>current = FormM f, models = r1, ended = True\<rparr> \<and>
         (textinput_Focused (Form.title f) \<longrightarrow>
            (\<exists>f'. Form_Update tiU taU (KeyMsg ''enter'') f r1 = (FormM f', Blink, r1))) \<and>
         (\<not> textinput_Focused (Form.title f) \<longrightarrow>
            Form_Update tiU taU (KeyMsg ''enter'') f r1 =
              (BoardM m, CreateTaskCmd f, r1\<lparr>form := f\<rparr>)))"
proof -
  let ?f0 = "(NewForm (Model.focused m))\<lparr>Form.title := tiU NilMsg (Form.title (NewForm (Model.focused m)))\<rparr>"
  let ?r0 = "r\<lparr>model := m, form := NewForm (Model.focused m)\<rparr>"
  have U: "Model_Update lU tiU taU (KeyMsg ''n'') m r = Some (FormM ?f0, LibCmd, ?r0)"
    by (rule Model_Update_n)
  have F: "Form.focused ?f0 = Model.focused m" by (simp add: NewForm_def)
  have A: "model r1 = m \<and>
         Form_Update tiU taU (KeyMsg ''ctrl+c'') f r1 = (FormM f, Quit, r1) \<and>
         step lU tiU taU (KeyMsg ''ctrl+c'') \<lparr>current = FormM f, models = r1, ended = False\<rparr> =
           Some \<lparr>current = FormM f, models = r1, ended = True\<rparr> \<and>
         (textinput_Focused (Form.title f) \<longrightarrow>
            (\<exists>f'. Form_Update tiU taU (KeyMsg ''enter'') f r1 = (FormM f', Blink, r1))) \<and>
         (\<not> textinput_Focused (Form.title f) \<longrightarrow>
            Form_Update tiU taU (KeyMsg ''enter'') f r1 =
              (BoardM m, CreateTaskCmd f, r1\<lparr>form := f\<rparr>))"
    if run: "form_msgs tiU taU mss ?f0 ?r0 = Some (f, r1)" for mss f r1
  proof -
    from form_msgs_registry [OF run] have r1: "r1 = ?r0" .
    then have m: "model r1 = m" by simp
    have s: "step lU tiU taU (KeyMsg ''ctrl+c'') \<lparr>current = FormM f, models = r1, ended = False\<rparr> =
           Some \<lparr>current = FormM f, models = r1, ended = True\<rparr>"
      by (simp add: step_def tea_Update_def Form_Update_ctrl_c run_cmd_def)
    from m s show ?thesis
      by (simp add: Form_Update_ctrl_c Form_Update_enter_title Form_Update_enter_description)
  qed
  from U F A show ?thesis
    by (intro exI [of _ ?f0] exI [of _ ?r0]) simp
qed

theorem form_leaves_board_witness:
  "Model_Update ignoring typing_title typing_description (KeyMsg ''n'') empty_board (models main) =
     Some (FormM (NewForm todo), LibCmd, \<lparr>model = empty_board, form = NewForm todo\<rparr>) \<and>
   form_msgs typing_title typing_description [KeyMsg ''abc''] (NewForm todo)
       \<lparr>model = empty_board, form = NewForm todo\<rparr> =
     Some ((NewForm todo)\<lparr>Form.title := \<lparr>ti_value = ''abc'', ti_focus = True\<rparr>\<rparr>,
           \<lparr>model = empty_board, form = NewForm todo\<rparr>) \<and>
   Form_Update typing_title typing_description (KeyMsg ''ctrl+c'')
       ((NewForm todo)\<lparr>Form.title := \<lparr>ti_value = ''abc'', ti_focus = True\<rparr>\<rparr>)
       \<lparr>model = empty_board, form = NewForm todo\<rparr> =
     (FormM ((NewForm todo)\<lparr>Form.title := \<lparr>ti_value = ''abc'', ti_focus = True\<rparr>\<rparr>), Quit,
      \<lparr>model = empty_board, form = NewForm todo\<rparr>) \<and>
   model \<lparr>model = empty_board, form = NewForm todo\<rparr> = empty_board"
proof -
  let ?r = "\<lparr>model = empty_board, form = NewForm todo\<rparr>"
  let ?f = "(NewForm todo)\<lparr>Form.title := \<lparr>ti_value = ''abc'', ti_focus = True\<rparr>\<rparr>"
  have U: "Model_Update ignoring typing_title typing_description (KeyMsg ''n'') empty_board (models main) =
     Some (FormM (NewForm todo), LibCmd, ?r)"
    by (simp add: Model_Update_n main_def empty_board_eq NewForm_def typing_title_def typing_def
        textinput_Focus_def textinput_New_def todo_def)
  have run: "form_msgs typing_title typing_description [KeyMsg ''abc''] (NewForm todo) ?r = Some (?f, ?r)"
    by (simp add: Form_Update_def NewForm_def textinput_Focused_def textinput_Focus_def
        textinput_New_def typing_title_def typing_def)
  from form_leaves_board [of ignoring typing_title typing_description empty_board "models main"]
  obtain f0 r0 where
    U0: "Model_Update ignoring typing_title typing_description (KeyMsg ''n'') empty_board (models main) =
           Some (FormM f0, LibCmd, r0)"
    and A: "\<forall>mss f r1. form_msgs typing_title typing_description mss f0 r0 = Some (f, r1) \<longrightarrow>
         model r1 = empty_board \<and>
         Form_Update typing_title typing_description (KeyMsg ''ctrl+c'') f r1 = (FormM f, Quit, r1)"
    by blast
  from U U0 have "f0 = NewForm todo" "r0 = ?r" by simp_all
  with A run have "model ?r = empty_board \<and>
      Form_Update typing_title typing_description (KeyMsg ''ctrl+c'') ?f ?r = (FormM ?f, Quit, ?r)"
    by blast
  with U run show ?thesis by simp
qed

lemma step_form_inv:
  assumes s: "step lU tiU taU ms p = Some p'"
    and inv: "\<forall>g. current p = FormM g \<longrightarrow> one_focused g"
    and ti: "\<forall>ms t. ti_focus (tiU ms t) = ti_focus t"
    and ta: "\<forall>ms t. ta_focus (taU ms t) = ta_focus t"
  shows "\<forall>g. current p' = FormM g \<longrightarrow> one_focused g"
proof (cases "ended p")
  case True
  with s inv show ?thesis by (simp add: step_def)
next
  case False
  show ?thesis
  proof (cases "current p")
    case (BoardM m)
    from s False BoardM obtain c cm r where
      U: "Model_Update lU tiU taU ms m (models p) = Some (c, cm, r)"
      and R: "run_cmd lU tiU taU cm c r = Some p'"
      by (cases "Model_Update lU tiU taU ms m (models p)") (auto simp: step_def tea_Update_def)
    from Model_Update_cases [OF U]
    consider (quit) "c = BoardM (m\<lparr>quitting := True\<rparr>)" "cm = Quit"
      | (cmd) "c = BoardM m" "cm = MoveToNextCmd m \<or> cm = DeleteTaskCmd m"
      | (new) "ms = KeyMsg ''n''"
      | (upd) m1 where "update_focused lU ms m1 (models p) = Some (c, cm, r)"
      by blast
    then show ?thesis
    proof cases
      case quit
      with R show ?thesis by (auto simp: run_cmd_def)
    next
      case cmd
      with R show ?thesis by (auto simp: run_cmd_def share_def split: option.splits)
    next
      case new
      with U R ti show ?thesis
        by (auto simp: Model_Update_n run_cmd_def one_focused_def NewForm_def
            textinput_Focus_def textinput_New_def textarea_New_def)
    next
      case upd
      then have "\<exists>b. c = BoardM b" "cm = LibCmd" by (auto simp: update_focused_Some)
      with R show ?thesis by (auto simp: run_cmd_def)
    qed
  next
    case (FormM f)
    obtain c cm r where U: "Form_Update tiU taU ms f (models p) = (c, cm, r)"
      by (metis prod_cases3)
    with s False FormM have R: "run_cmd lU tiU taU cm c r = Some p'"
      by (simp add: step_def tea_Update_def)
    from Form_Update_cases [OF U]
    consider (stay) f' where "c = FormM f'" "cm = Quit \<or> cm = Blink \<or> cm = LibCmd"
      | (fin) "c = BoardM (model (models p))" "cm = CreateTaskCmd f"
      by blast
    then show ?thesis
    proof cases
      case stay
      from inv FormM have "one_focused f" by simp
      from Form_Update_focus [OF U [unfolded stay(1)] this ti ta] have "one_focused f'" .
      with stay R show ?thesis by (auto simp: run_cmd_def)
    next
      case fin
      with R show ?thesis
        by (auto simp: run_cmd_def tea_Update_def Model_Update_def update_focused_Some
            split: option.splits)
    qed
  qed
qed

lemma exec_form_inv:
  assumes "exec lU tiU taU mss p = Some p'"
    and "\<forall>g. current p = FormM g \<longrightarrow> one_focused g"
    and ti: "\<forall>ms t. ti_focus (tiU ms t) = ti_focus t"
    and ta: "\<forall>ms t. ta_focus (taU ms t) = ta_focus t"
  shows "\<forall>g. current p' = FormM g \<longrightarrow> one_focused g"
  using assms(1,2)
proof (induction mss arbitrary: p)
  case Nil
  then show ?case by simp
next
  case (Cons ms mss)
  from Cons.prems(1) obtain p1 where s: "step lU tiU taU ms p = Some p1"
    and e: "exec lU tiU taU mss p1 = Some p'"
    by (auto split: option.splits)
  from Cons.IH [OF e step_form_inv [OF s Cons.prems(2) ti ta]] show ?case .
qed

text \<open>
  Claim C10. A new form has the focus on its title and not on its description. The first
  confirmation takes the focus from the title and gives it to the description. In every
  state the program reaches from \<^verbatim>\<open>main\<close> with a form as the current model, exactly one
  of the two fields has the focus. Every key other than the terminate key and the
  confirmation goes to the title if the title has the focus and to the description
  otherwise, and leaves the other field as it is. The external text fields are assumed
  to keep their focus flags when they handle a message.
\<close>

theorem form_focus_exclusive:
  assumes ti: "\<forall>ms t. ti_focus (tiU ms t) = ti_focus t"
    and ta: "\<forall>ms t. ta_focus (taU ms t) = ta_focus t"
  shows "ti_focus (Form.title (NewForm s)) \<and> \<not> ta_focus (Form.description (NewForm s)) \<and>
    (ti_focus (Form.title f) \<longrightarrow>
       (\<exists>f'. Form_Update tiU taU (KeyMsg ''enter'') f r = (FormM f', Blink, r) \<and>
             \<not> ti_focus (Form.title f') \<and> ta_focus (Form.description f'))) \<and>
    (\<forall>mss p g. exec lU tiU taU mss main = Some p \<longrightarrow> current p = FormM g \<longrightarrow> one_focused g) \<and>
    (\<forall>k. k \<noteq> ''ctrl+c'' \<longrightarrow> k \<noteq> ''enter'' \<longrightarrow>
       Form_Update tiU taU (KeyMsg k) f r =
         (FormM (if ti_focus (Form.title f)
                 then f\<lparr>Form.title := tiU (KeyMsg k) (Form.title f)\<rparr>
                 else f\<lparr>Form.description := taU (KeyMsg k) (Form.description f)\<rparr>), LibCmd, r))"
proof -
  have new: "ti_focus (Form.title (NewForm s)) \<and> \<not> ta_focus (Form.description (NewForm s))"
    by (simp add: NewForm_def textinput_Focus_def textarea_New_def)
  have confirm: "ti_focus (Form.title f) \<longrightarrow>
       (\<exists>f'. Form_Update tiU taU (KeyMsg ''enter'') f r = (FormM f', Blink, r) \<and>
             \<not> ti_focus (Form.title f') \<and> ta_focus (Form.description f'))"
    by (simp add: Form_Update_def textinput_Focused_def textinput_Blur_def textarea_Focus_def)
  have "\<forall>g. current main = FormM g \<longrightarrow> one_focused g" by (simp add: main_def)
  then have reach: "\<forall>mss p g. exec lU tiU taU mss main = Some p \<longrightarrow> current p = FormM g \<longrightarrow> one_focused g"
    using exec_form_inv [OF _ _ ti ta] by blast
  have deleg: "\<forall>k. k \<noteq> ''ctrl+c'' \<longrightarrow> k \<noteq> ''enter'' \<longrightarrow>
       Form_Update tiU taU (KeyMsg k) f r =
         (FormM (if ti_focus (Form.title f)
                 then f\<lparr>Form.title := tiU (KeyMsg k) (Form.title f)\<rparr>
                 else f\<lparr>Form.description := taU (KeyMsg k) (Form.description f)\<rparr>), LibCmd, r)"
    by (simp add: Form_Update_delegate textinput_Focused_def)
  from new confirm reach deleg show ?thesis by blast
qed

theorem form_focus_exclusive_witness:
  "(\<forall>ms t. ti_focus (typing_title ms t) = ti_focus t) \<and>
   (\<forall>ms t. ta_focus (typing_description ms t) = ta_focus t) \<and>
   ti_focus (Form.title (NewForm todo)) \<and> \<not> ta_focus (Form.description (NewForm todo)) \<and>
   exec ignoring typing_title typing_description [WindowSizeMsg 80 24, KeyMsg ''n''] main =
     Some \<lparr>current = FormM (NewForm todo),
           models = \<lparr>model = empty_board, form = NewForm todo\<rparr>, ended = False\<rparr> \<and>
   one_focused (NewForm todo)"
proof -
  let ?final = "\<lparr>current = FormM (NewForm todo),
           models = \<lparr>model = empty_board, form = NewForm todo\<rparr>, ended = False\<rparr>"
  have ti: "\<forall>ms t. ti_focus (typing_title ms t) = ti_focus t" by (simp add: typing_title_def)
  have ta: "\<forall>ms t. ta_focus (typing_description ms t) = ta_focus t"
    by (simp add: typing_description_def)
  have s: "step ignoring typing_title typing_description (KeyMsg ''n'')
        \<lparr>current = BoardM empty_board, models = models main, ended = False\<rparr> = Some ?final"
    by (simp add: step_new main_def empty_board_eq NewForm_def textinput_Focus_def
        textinput_New_def textarea_New_def typing_title_def typing_def todo_def)
  have e: "exec ignoring typing_title typing_description [WindowSizeMsg 80 24, KeyMsg ''n''] main =
     Some ?final"
    by (simp add: step_window s)
  note T = form_focus_exclusive [OF ti ta, of todo "NewForm todo" "models main" ignoring]
  from T have n: "ti_focus (Form.title (NewForm todo)) \<and> \<not> ta_focus (Form.description (NewForm todo))"
    by blast
  from T e have o: "one_focused (NewForm todo)"
    by (metis prog.select_convs(1))
  from ti ta n e o show ?thesis by simp
qed

end
